theory Spec2Isabelle
  imports Complex_Main "HOL-Library.AList" "HOL-Library.Char_ord" "HOL-Library.List_Lexorder"
    "HOL-Library.Sublist"
begin

section \<open>Numbers, errors and indexing\<close>

text \<open>
  The screener computes with float64 columns. A float is modelled as an extended real:
  a finite value is an exact real number (rounding and overflow are not modelled, and
  there is no negative zero), and the three special values of IEEE arithmetic are kept,
  because the code meets them: numpy and pandas divide by zero without raising
  (\<open>x / 0\<close> is \<open>inf\<close>, \<open>-inf\<close> or \<open>NaN\<close>), every comparison with \<open>NaN\<close>
  is false, and the normaliser replaces infinities and drops missing values.
\<close>

datatype fval = Fin real | PInf | NInf | NaN

datatype py_error = IndexError | KeyError | ValueError

text \<open>True division of two finite floats, as numpy and pandas do it.\<close>

definition np_div :: "real \<Rightarrow> real \<Rightarrow> fval" where
  "np_div a b =
     (if b = 0 then (if a = 0 then NaN else if 0 < a then PInf else NInf)
      else Fin (a / b))"

text \<open>A float times a finite constant (the code multiplies by \<open>100\<close>).\<close>

fun np_mul :: "fval \<Rightarrow> real \<Rightarrow> fval" where
  "np_mul (Fin a) c = Fin (a * c)"
| "np_mul PInf c = (if 0 < c then PInf else if c < 0 then NInf else NaN)"
| "np_mul NInf c = (if 0 < c then NInf else if c < 0 then PInf else NaN)"
| "np_mul NaN c = NaN"

fun np_le :: "fval \<Rightarrow> fval \<Rightarrow> bool" where
  "np_le NaN y = False"
| "np_le x NaN = False"
| "np_le NInf y = True"
| "np_le x PInf = True"
| "np_le (Fin a) (Fin b) = (a \<le> b)"
| "np_le PInf y = False"
| "np_le x NInf = False"

fun np_add :: "fval \<Rightarrow> fval \<Rightarrow> fval" where
  "np_add NaN y = NaN"
| "np_add x NaN = NaN"
| "np_add (Fin a) (Fin b) = Fin (a + b)"
| "np_add PInf NInf = NaN"
| "np_add NInf PInf = NaN"
| "np_add PInf y = PInf"
| "np_add x PInf = PInf"
| "np_add NInf y = NInf"
| "np_add x NInf = NInf"

text \<open>
  \<open>mean\<close> of a pandas group: missing values are skipped, the rest is summed and divided
  by its count; a group with no value left has mean \<open>NaN\<close>.
\<close>

definition nanmean :: "fval list \<Rightarrow> fval" where
  "nanmean xs =
     (let ys = filter (\<lambda>x. x \<noteq> NaN) xs
      in if ys = [] then NaN
         else (case foldl np_add (Fin 0) ys of
                 Fin s \<Rightarrow> Fin (s / real (length ys))
               | v \<Rightarrow> v))"

text \<open>Positional access \<open>.iloc[i]\<close>: a negative position counts from the end.\<close>

definition iloc :: "'a list \<Rightarrow> int \<Rightarrow> py_error + 'a" where
  "iloc xs i =
     (let pos = (if i < 0 then i + int (length xs) else i)
      in if pos < 0 \<or> int (length xs) \<le> pos then Inl IndexError
         else Inr (xs ! nat pos))"

section \<open>Price frames and the price-drop filter\<close>

text \<open>
  One row of a price frame, and the frame: its rows in date order and the column
  \<open>price_drop\<close>, which a frame fetched from the gateway does not have (\<open>None\<close>) and
  which \<open>filter_by_price_drop\<close> writes.
\<close>

record bar =
  date :: int
  open_price :: real
  high :: real
  low :: real
  close :: real
  volume :: real

record price_df =
  bars :: "bar list"
  price_drop_col :: "fval list option"

type_synonym prices_dict = "(string \<times> price_df) list"

definition price_empty :: "price_df \<Rightarrow> bool" where
  "price_empty df = (bars df = [])"

text \<open>\<open>df['price_drop'] = price_drop\<close>: the scalar is broadcast to every row.\<close>

definition set_price_drop :: "fval \<Rightarrow> price_df \<Rightarrow> price_df" where
  "set_price_drop v df = df\<lparr>price_drop_col := Some (replicate (length (bars df)) v)\<rparr>"

text \<open>Lines 18 to 20 of \<open>candidate_finder.py\<close>: first and last close, and the ratio.\<close>

definition price_drop_of :: "price_df \<Rightarrow> py_error + fval" where
  "price_drop_of df =
     (case iloc (bars df) 0 of
        Inl e \<Rightarrow> Inl e
      | Inr first_row \<Rightarrow>
          (case iloc (bars df) (- 1) of
             Inl e \<Rightarrow> Inl e
           | Inr last_row \<Rightarrow>
               (let first_price = close first_row;
                    last_price = close last_row
                in Inr (np_mul (np_div (first_price - last_price) first_price) 100))))"

text \<open>
  The loop of \<open>filter_by_price_drop\<close> over \<open>prices_dict.items()\<close>. The frames are
  objects shared with the caller's dictionary, and the loop writes the \<open>price_drop\<close>
  column into them, so the function returns the caller's dictionary as the loop leaves
  it together with \<open>filtered_prices_dict\<close>. A dictionary is an association list in
  insertion order, and \<open>d[k] = v\<close> is \<open>AList.update\<close>.
\<close>

fun price_drop_loop ::
  "real \<Rightarrow> prices_dict \<Rightarrow> prices_dict \<Rightarrow> py_error + (prices_dict \<times> prices_dict)" where
  "price_drop_loop thr [] filtered = Inr ([], filtered)"
| "price_drop_loop thr ((symbol, df) # items) filtered =
     (if \<not> price_empty df then
        (case price_drop_of df of
           Inl e \<Rightarrow> Inl e
         | Inr price_drop \<Rightarrow>
             (let df' = set_price_drop price_drop df;
                  filtered' = (if np_le price_drop (Fin thr)
                               then AList.update symbol df' filtered else filtered)
              in (case price_drop_loop thr items filtered' of
                    Inl e \<Rightarrow> Inl e
                  | Inr (items', out) \<Rightarrow> Inr ((symbol, df') # items', out))))
      else (case price_drop_loop thr items filtered of
              Inl e \<Rightarrow> Inl e
            | Inr (items', out) \<Rightarrow> Inr ((symbol, df) # items', out)))"

definition filter_by_price_drop ::
  "prices_dict \<Rightarrow> real \<Rightarrow> py_error + (prices_dict \<times> prices_dict)" where
  "filter_by_price_drop prices_dict price_drop_percent =
     price_drop_loop price_drop_percent prices_dict []"

section \<open>Insider trades and the insider-buy filter\<close>

text \<open>
  Owner types and transaction types are ASCII text. \<open>str.contains(pat, case=False)\<close>
  searches the pattern anywhere in the text, ignoring the case of letters; the four
  patterns of the code have no regular-expression operator, so the search is a plain
  substring search.
\<close>

definition ascii_lower :: "char \<Rightarrow> char" where
  "ascii_lower c =
     (case map_of (zip ''ABCDEFGHIJKLMNOPQRSTUVWXYZ'' ''abcdefghijklmnopqrstuvwxyz'') c of
        Some l \<Rightarrow> l
      | None \<Rightarrow> c)"

definition str_lower :: "string \<Rightarrow> string" where
  "str_lower s = map ascii_lower s"

fun match_here :: "string \<Rightarrow> string \<Rightarrow> bool" where
  "match_here [] s = True"
| "match_here (p # ps) [] = False"
| "match_here (p # ps) (c # cs) = (ascii_lower p = ascii_lower c \<and> match_here ps cs)"

fun str_contains :: "string \<Rightarrow> string \<Rightarrow> bool" where
  "str_contains [] pat = match_here pat []"
| "str_contains (c # cs) pat = (match_here pat (c # cs) \<or> str_contains cs pat)"

record trade =
  typeOfOwner :: string
  transactionType :: string
  securitiesTransacted :: real
  securitiesOwned :: real

text \<open>
  A frame of insider trades: the rows as the gateway returns them, and the three columns
  that \<open>find_candidates\<close> adds (\<open>None\<close> while a column does not exist).
\<close>

record trades_df =
  trades :: "trade list"
  symbol_col :: "string list option"
  ownership_change_col :: "fval list option"
  trade_price_drop_col :: "fval list option"

type_synonym trades_dict = "(string \<times> trades_df) list"

definition select_rows :: "bool list \<Rightarrow> 'a list \<Rightarrow> 'a list" where
  "select_rows keep xs = map snd (filter fst (zip keep xs))"

text \<open>\<open>df[mask]\<close>: a new frame with the rows where the mask is true.\<close>

definition boolean_index :: "bool list \<Rightarrow> trades_df \<Rightarrow> trades_df" where
  "boolean_index keep df =
     \<lparr>trades = select_rows keep (trades df),
      symbol_col = map_option (select_rows keep) (symbol_col df),
      ownership_change_col = map_option (select_rows keep) (ownership_change_col df),
      trade_price_drop_col = map_option (select_rows keep) (trade_price_drop_col df)\<rparr>"

definition is_ceo_buy :: "trade \<Rightarrow> bool" where
  "is_ceo_buy t =
     ((str_contains (typeOfOwner t) ''CEO'' \<or>
       str_contains (typeOfOwner t) ''CFO'' \<or>
       str_contains (typeOfOwner t) ''COO'' \<or>
       str_contains (typeOfOwner t) ''director'') \<and>
      transactionType t = ''P-Purchase'')"

definition filter_by_ceo_buys :: "trades_dict \<Rightarrow> trades_dict" where
  "filter_by_ceo_buys insider_trades_dict =
     fold (\<lambda>(symbol, df) filtered_trades_dict.
             (let ceo_buys = boolean_index (map is_ceo_buy (trades df)) df
              in if trades ceo_buys \<noteq> [] then AList.update symbol ceo_buys filtered_trades_dict
                 else filtered_trades_dict))
          insider_trades_dict []"

section \<open>The aggregation of candidates\<close>

record candidate =
  symbol :: string
  ownership_change :: fval
  price_drop :: fval

datatype effect = ToCsv "candidate list" | PlotCandidates "candidate list"

text \<open>
  Lines 75 to 82 of \<open>candidate_finder.py\<close>: the three columns written into one frame of
  \<open>filtered_trades_dict\<close>. The \<open>price_drop\<close> column is written only when the symbol
  is a key of \<open>filtered_prices_dict\<close>.
\<close>

definition attach_columns :: "prices_dict \<Rightarrow> string \<Rightarrow> trades_df \<Rightarrow> py_error + trades_df" where
  "attach_columns filtered_prices_dict ticker df =
     (let n = length (trades df);
          df1 = df\<lparr>symbol_col := Some (replicate n ticker)\<rparr>;
          df2 = df1\<lparr>ownership_change_col :=
                   Some (map (\<lambda>t. np_mul (np_div (securitiesTransacted t) (securitiesOwned t)) 100)
                          (trades df1))\<rparr>
      in (case map_of filtered_prices_dict ticker of
            None \<Rightarrow> Inr df2
          | Some prices_df \<Rightarrow>
              (case price_drop_col prices_df of
                 None \<Rightarrow> Inl KeyError
               | Some col \<Rightarrow>
                   (case iloc col (- 1) of
                      Inl e \<Rightarrow> Inl e
                    | Inr v \<Rightarrow> Inr (df2\<lparr>trade_price_drop_col := Some (replicate n v)\<rparr>)))))"

text \<open>\<open>df[['symbol', 'ownership_change', 'price_drop']]\<close>: a missing column is a KeyError.\<close>

definition project_candidates :: "trades_df \<Rightarrow> py_error + candidate list" where
  "project_candidates df =
     (case symbol_col df of
        None \<Rightarrow> Inl KeyError
      | Some ss \<Rightarrow>
          (case ownership_change_col df of
             None \<Rightarrow> Inl KeyError
           | Some os \<Rightarrow>
               (case trade_price_drop_col df of
                  None \<Rightarrow> Inl KeyError
                | Some ps \<Rightarrow>
                    Inr (map (\<lambda>(s, oc, pd). \<lparr>symbol = s, ownership_change = oc, price_drop = pd\<rparr>)
                          (zip ss (zip os ps))))))"

text \<open>
  The loop over \<open>filtered_trades_dict.items()\<close>: it returns the dictionary with the
  frames as the loop leaves them, and \<open>candidates_list\<close>.
\<close>

fun candidates_loop ::
  "prices_dict \<Rightarrow> trades_dict \<Rightarrow> py_error + (trades_dict \<times> candidate list list)" where
  "candidates_loop filtered_prices_dict [] = Inr ([], [])"
| "candidates_loop filtered_prices_dict ((ticker, df) # items) =
     (case attach_columns filtered_prices_dict ticker df of
        Inl e \<Rightarrow> Inl e
      | Inr df' \<Rightarrow>
          (case project_candidates df' of
             Inl e \<Rightarrow> Inl e
           | Inr part \<Rightarrow>
               (case candidates_loop filtered_prices_dict items of
                  Inl e \<Rightarrow> Inl e
                | Inr (items', parts) \<Rightarrow> Inr ((ticker, df') # items', part # parts))))"

text \<open>
  \<open>groupby('symbol').agg(mean, mean).reset_index()\<close>: one row per symbol of the
  table, the symbols in sorted order.
\<close>

definition groupby_mean :: "candidate list \<Rightarrow> candidate list" where
  "groupby_mean tbl =
     map (\<lambda>k. (let grp = filter (\<lambda>r. symbol r = k) tbl
               in \<lparr>symbol = k,
                   ownership_change = nanmean (map ownership_change grp),
                   price_drop = nanmean (map price_drop grp)\<rparr>))
         (sort (remdups (map symbol tbl)))"

text \<open>
  Lines 73 to 103: the loop, the early return of \<open>None\<close>, the grouping and the write
  of \<open>candidates.csv\<close>. The result is the dictionary of trades as it is left, the
  returned table and the effects performed.
\<close>

definition aggregate_candidates ::
  "prices_dict \<Rightarrow> trades_dict \<Rightarrow> py_error + (trades_dict \<times> candidate list option \<times> effect list)" where
  "aggregate_candidates filtered_prices_dict filtered_trades_dict =
     (case candidates_loop filtered_prices_dict filtered_trades_dict of
        Inl e \<Rightarrow> Inl e
      | Inr (trades_after, candidates_list) \<Rightarrow>
          (if length candidates_list = 0 then Inr (trades_after, None, [])
           else (let candidates_df = groupby_mean (concat candidates_list)
                 in Inr (trades_after, Some candidates_df, [ToCsv candidates_df]))))"

section \<open>The gateway's batch fetches and the pipeline\<close>

text \<open>
  The fetch of one symbol talks to the network and the cache; it is a parameter that
  returns a frame or nothing. The batch forms are the loops of \<open>fmp_data_loader.py\<close>.
\<close>

definition fetch_multiple_daily_prices_by_date ::
  "(string \<Rightarrow> price_df option) \<Rightarrow> string list \<Rightarrow> prices_dict" where
  "fetch_multiple_daily_prices_by_date fetch_daily_prices_by_date symbol_list =
     fold (\<lambda>ticker results. (case fetch_daily_prices_by_date ticker of
                             Some df \<Rightarrow> AList.update ticker df results
                           | None \<Rightarrow> results))
          symbol_list []"

definition fetch_multiple_insider_trades_by_date ::
  "(string \<Rightarrow> trades_df option) \<Rightarrow> string list \<Rightarrow> trades_dict" where
  "fetch_multiple_insider_trades_by_date fetch_insider_trades symbol_list =
     fold (\<lambda>ticker results. (case fetch_insider_trades ticker of
                             Some df \<Rightarrow> AList.update ticker df results
                           | None \<Rightarrow> results))
          symbol_list []"

text \<open>The dictionary of qualifying trades that \<open>find_candidates\<close> hands to its last loop.\<close>

definition surviving_trades ::
  "(string \<Rightarrow> trades_df option) \<Rightarrow> prices_dict \<Rightarrow> trades_dict" where
  "surviving_trades fetch_insider_trades filtered_prices_dict =
     filter_by_ceo_buys
       (fetch_multiple_insider_trades_by_date fetch_insider_trades (map fst filtered_prices_dict))"

definition find_candidates ::
  "(string \<Rightarrow> price_df option) \<Rightarrow> (string \<Rightarrow> trades_df option) \<Rightarrow> string list \<Rightarrow> real
     \<Rightarrow> py_error + (candidate list option \<times> effect list)" where
  "find_candidates fetch_daily_prices_by_date fetch_insider_trades symbol_list threshold =
     (let prices_dict = fetch_multiple_daily_prices_by_date fetch_daily_prices_by_date symbol_list
      in (case filter_by_price_drop prices_dict threshold of
            Inl e \<Rightarrow> Inl e
          | Inr (prices_after, filtered_prices_dict) \<Rightarrow>
              (case aggregate_candidates filtered_prices_dict
                      (surviving_trades fetch_insider_trades filtered_prices_dict) of
                 Inl e \<Rightarrow> Inl e
               | Inr (trades_after, candidates_df, effects) \<Rightarrow> Inr (candidates_df, effects))))"

text \<open>\<open>main.py\<close>: the effects of one run of the script.\<close>

definition main_script ::
  "(string \<Rightarrow> price_df option) \<Rightarrow> (string \<Rightarrow> trades_df option) \<Rightarrow> string list \<Rightarrow> real
     \<Rightarrow> py_error + effect list" where
  "main_script fetch_daily_prices_by_date fetch_insider_trades symbol_list threshold =
     (case find_candidates fetch_daily_prices_by_date fetch_insider_trades symbol_list threshold of
        Inl e \<Rightarrow> Inl e
      | Inr (candidates_df, effects) \<Rightarrow>
          (case candidates_df of
             None \<Rightarrow> Inr effects
           | Some tbl \<Rightarrow>
               (if 0 < length tbl then Inr (effects @ [PlotCandidates tbl]) else Inr effects)))"

section \<open>The OHLCV normaliser\<close>

text \<open>
  A raw frame is a list of named columns (pandas allows a name twice). A cell is a
  number, a text, a timestamp, or one of the missing markers \<open>NaT\<close> and \<open>None\<close>;
  \<open>NaN\<close> is the missing marker among the numbers.
\<close>

datatype cell = Num fval | Str string | Ts int | NaT | NoneV

type_synonym dataframe = "(string \<times> cell list) list"

definition rename_mapping :: "(string \<times> string) list" where
  "rename_mapping =
     [(''Date'', ''date''), (''Datetime'', ''date''), (''DateTime'', ''date''),
      (''Time'', ''time''), (''Open'', ''open''), (''High'', ''high''), (''Low'', ''low''),
      (''Close'', ''close''), (''AdjClose'', ''adj_close''), (''Adj Close'', ''adj_close''),
      (''adjclose'', ''adj_close''), (''Volume'', ''volume'')]"

text \<open>\<open>df.rename(columns=f)\<close> with a function, and the function a mapping stands for.\<close>

definition rename_columns :: "(string \<Rightarrow> string) \<Rightarrow> dataframe \<Rightarrow> dataframe" where
  "rename_columns f df = map (\<lambda>(name, col). (f name, col)) df"

definition rename_by :: "(string \<times> string) list \<Rightarrow> string \<Rightarrow> string" where
  "rename_by m name = (case map_of m name of Some new_name \<Rightarrow> new_name | None \<Rightarrow> name)"

definition isna :: "cell \<Rightarrow> bool" where
  "isna c = (c = Num NaN \<or> c = NaT \<or> c = NoneV)"

text \<open>
  \<open>pd.to_datetime(..., errors='coerce')\<close> on one value. A timestamp stays, a missing
  value is \<open>NaT\<close>; how pandas reads a text or a number as a date is the parameter
  \<open>parse\<close>, and a value it cannot read is \<open>NaT\<close>.
\<close>

definition to_datetime :: "(cell \<Rightarrow> int option) \<Rightarrow> cell \<Rightarrow> cell" where
  "to_datetime parse c =
     (case c of
        Ts t \<Rightarrow> Ts t
      | NaT \<Rightarrow> NaT
      | NoneV \<Rightarrow> NaT
      | Num NaN \<Rightarrow> NaT
      | _ \<Rightarrow> (case parse c of Some t \<Rightarrow> Ts t | None \<Rightarrow> NaT))"

text \<open>
  Lines 41 and 42 of \<open>df_utils.py\<close>. With two columns named \<open>date\<close> the selection
  \<open>df['date']\<close> is a frame, which \<open>pd.to_datetime\<close> refuses with a ValueError.
\<close>

definition convert_date :: "(cell \<Rightarrow> int option) \<Rightarrow> dataframe \<Rightarrow> py_error + dataframe" where
  "convert_date parse df =
     (if ''date'' \<in> set (map fst df) then
        (if length (filter (\<lambda>name. name = ''date'') (map fst df)) = 1
         then Inr (map (\<lambda>(name, col). if name = ''date'' then (name, map (to_datetime parse) col)
                                        else (name, col)) df)
         else Inl ValueError)
      else Inr df)"

definition replace_inf_cell :: "cell \<Rightarrow> cell" where
  "replace_inf_cell c = (if c = Num PInf \<or> c = Num NInf then Num NaN else c)"

definition replace_inf :: "dataframe \<Rightarrow> dataframe" where
  "replace_inf df = map (\<lambda>(name, col). (name, map replace_inf_cell col)) df"

definition row_has_na :: "dataframe \<Rightarrow> nat \<Rightarrow> bool" where
  "row_has_na df i = list_ex (\<lambda>(name, col). i < length col \<and> isna (col ! i)) df"

definition dropna :: "dataframe \<Rightarrow> dataframe" where
  "dropna df =
     map (\<lambda>(name, col). (name, map (\<lambda>i. col ! i)
                                   (filter (\<lambda>i. \<not> row_has_na df i) [0..<length col]))) df"

text \<open>Forward fill of one column: a missing cell takes the last value seen before it.\<close>

fun ffill_from :: "cell option \<Rightarrow> cell list \<Rightarrow> cell list" where
  "ffill_from prev [] = []"
| "ffill_from prev (c # cs) =
     (if isna c then (case prev of None \<Rightarrow> c | Some v \<Rightarrow> v) # ffill_from prev cs
      else c # ffill_from (Some c) cs)"

definition ffill :: "dataframe \<Rightarrow> dataframe" where
  "ffill df = map (\<lambda>(name, col). (name, ffill_from None col)) df"

text \<open>
  Lines 54 to 56: \<open>pd.to_numeric(..., errors='coerce')\<close> on every column of a numeric
  type. A name that two columns share selects a frame, which has no numeric type.
\<close>

definition is_numeric_dtype :: "cell list \<Rightarrow> bool" where
  "is_numeric_dtype col = list_all (\<lambda>c. case c of Num v \<Rightarrow> True | _ \<Rightarrow> False) col"

definition to_numeric :: "cell \<Rightarrow> cell" where
  "to_numeric c = (case c of Num v \<Rightarrow> Num v | _ \<Rightarrow> Num NaN)"

definition coerce_numeric :: "dataframe \<Rightarrow> dataframe" where
  "coerce_numeric df =
     map (\<lambda>(name, col).
            if length (filter (\<lambda>other. other = name) (map fst df)) = 1 \<and> is_numeric_dtype col
            then (name, map to_numeric col) else (name, col)) df"

definition standardize_ohlcv_dataframe ::
  "(cell \<Rightarrow> int option) \<Rightarrow> dataframe \<Rightarrow> py_error + dataframe" where
  "standardize_ohlcv_dataframe parse df =
     (case convert_date parse (rename_columns (rename_by rename_mapping) (rename_columns str_lower df)) of
        Inl e \<Rightarrow> Inl e
      | Inr dated \<Rightarrow> Inr (coerce_numeric (ffill (dropna (replace_inf dated)))))"

text \<open>The same normaliser with the forward-fill step taken out.\<close>

definition standardize_without_ffill ::
  "(cell \<Rightarrow> int option) \<Rightarrow> dataframe \<Rightarrow> py_error + dataframe" where
  "standardize_without_ffill parse df =
     (case convert_date parse (rename_columns (rename_by rename_mapping) (rename_columns str_lower df)) of
        Inl e \<Rightarrow> Inl e
      | Inr dated \<Rightarrow> Inr (coerce_numeric (dropna (replace_inf dated))))"

section \<open>The specification's formulas and the scenarios\<close>

text \<open>
  The price drop as the specification writes it:
  \<open>(first.close - last.close) / first.close * 100\<close>, for a series that is not empty.
\<close>

definition spec_price_drop_percent :: "price_df \<Rightarrow> fval" where
  "spec_price_drop_percent df =
     np_mul (np_div (close (hd (bars df)) - close (last (bars df))) (close (hd (bars df)))) 100"

text \<open>What a run of the price-drop filter leaves in a frame of the caller's dictionary.\<close>

definition annotated :: "price_df \<Rightarrow> price_df" where
  "annotated df = (if bars df = [] then df else set_price_drop (spec_price_drop_percent df) df)"

text \<open>Small frames for the scenarios: a series of two trading days, and a series with no data.\<close>

definition flat_bar :: "int \<Rightarrow> real \<Rightarrow> bar" where
  "flat_bar d c = \<lparr>date = d, open_price = c, high = c, low = c, close = c, volume = 1000\<rparr>"

definition two_day_series :: "real \<Rightarrow> real \<Rightarrow> price_df" where
  "two_day_series a b = \<lparr>bars = [flat_bar 0 a, flat_bar 1 b], price_drop_col = None\<rparr>"

definition no_data :: price_df where
  "no_data = \<lparr>bars = [], price_drop_col = None\<rparr>"

definition e2e_prices :: prices_dict where
  "e2e_prices = [(''ABC'', two_day_series 100 70), (''XYZ'', two_day_series 100 110)]"

definition sparse_prices :: prices_dict where
  "sparse_prices = [(''NEW'', no_data), (''XYZ'', two_day_series 100 110)]"

text \<open>
  The qualifying predicate as the specification words it: the transaction type is
  \<open>P-Purchase\<close>, and the owner type contains one of the four role names as a substring,
  letter case ignored.
\<close>

definition spec_insider_buy :: "trade \<Rightarrow> bool" where
  "spec_insider_buy t =
     (transactionType t = ''P-Purchase'' \<and>
      (\<exists>role \<in> set [''CEO'', ''CFO'', ''COO'', ''director''].
         sublist (str_lower role) (str_lower (typeOfOwner t))))"

text \<open>Frames of trades as the gateway returns them, for the scenarios.\<close>

definition raw_trades :: "trade list \<Rightarrow> trades_df" where
  "raw_trades ts =
     \<lparr>trades = ts, symbol_col = None, ownership_change_col = None, trade_price_drop_col = None\<rparr>"

definition insider :: "string \<Rightarrow> string \<Rightarrow> real \<Rightarrow> real \<Rightarrow> trade" where
  "insider owner kind transacted owned =
     \<lparr>typeOfOwner = owner, transactionType = kind,
      securitiesTransacted = transacted, securitiesOwned = owned\<rparr>"

definition mixed_trades :: trades_dict where
  "mixed_trades =
     [(''ABC'', raw_trades [insider ''CEO'' ''P-Purchase'' 1000 10000,
                            insider ''Vice President'' ''P-Purchase'' 500 1000]),
      (''XYZ'', raw_trades [insider ''CEO'' ''S-Sale'' 200 4000])]"

text \<open>
  The ownership change of one transaction as the specification writes it:
  \<open>securities_transacted / securities_owned * 100\<close>.
\<close>

definition spec_ownership_change :: "trade \<Rightarrow> fval" where
  "spec_ownership_change t = np_mul (np_div (securitiesTransacted t) (securitiesOwned t)) 100"

text \<open>
  The price drop of a symbol's series as the aggregator reads it: the last entry of the
  \<open>price_drop\<close> column of the symbol's frame, when the symbol, the column and a row exist.
\<close>

definition series_price_drop :: "prices_dict \<Rightarrow> string \<Rightarrow> fval option" where
  "series_price_drop filtered_prices_dict s =
     (case map_of filtered_prices_dict s of
        None \<Rightarrow> None
      | Some prices_df \<Rightarrow>
          (case price_drop_col prices_df of
             None \<Rightarrow> None
           | Some col \<Rightarrow> if col = [] then None else Some (last col)))"

text \<open>A frame of trades with the three columns the aggregator writes.\<close>

definition with_columns :: "string \<Rightarrow> fval \<Rightarrow> trades_df \<Rightarrow> trades_df" where
  "with_columns s v df =
     df\<lparr>symbol_col := Some (replicate (length (trades df)) s),
        ownership_change_col := Some (map spec_ownership_change (trades df)),
        trade_price_drop_col := Some (replicate (length (trades df)) v)\<rparr>"

definition candidate_rows :: "string \<Rightarrow> fval \<Rightarrow> trades_df \<Rightarrow> candidate list" where
  "candidate_rows s v df =
     map (\<lambda>t. \<lparr>symbol = s, ownership_change = spec_ownership_change t, price_drop = v\<rparr>) (trades df)"

text \<open>Two qualifying purchases with ownership changes 5 and 15, and a series with price drop 20.\<close>

definition p4_prices :: prices_dict where
  "p4_prices = [(''ABC'', set_price_drop (Fin 20) (two_day_series 100 80))]"

definition p4_trades :: trades_dict where
  "p4_trades =
     [(''ABC'', raw_trades [insider ''CEO'' ''P-Purchase'' 5 100,
                            insider ''Director'' ''P-Purchase'' 15 100])]"



text \<open>
  The end-to-end scenario: the gateway knows the two price series of \<open>e2e_prices\<close> and
  one purchase by the CEO of ABC, 1000 shares against a holding of 10000.
\<close>

definition e2e_trades :: trades_dict where
  "e2e_trades = [(''ABC'', raw_trades [insider ''CEO'' ''P-Purchase'' 1000 10000])]"



text \<open>A raw frame with a gap, and a canonical frame, with a reader of the two date texts.\<close>

definition gapped_frame :: dataframe where
  "gapped_frame = [(''Close'', [Num (Fin 100), Num NaN, Num PInf, Num (Fin 80)])]"

definition two_dates :: "cell \<Rightarrow> int option" where
  "two_dates c =
     (if c = Str ''2024-01-02'' then Some 1 else if c = Str ''2024-01-03'' then Some 2 else None)"



section \<open>Properties of the price-drop filter\<close>

lemma iloc_first: "xs \<noteq> [] \<Longrightarrow> iloc xs 0 = Inr (hd xs)"
  by (cases xs) (simp_all add: iloc_def)

lemma iloc_last: "xs \<noteq> [] \<Longrightarrow> iloc xs (- 1) = Inr (last xs)"
proof -
  assume ne: "xs \<noteq> []"
  then have len: "0 < length xs" by simp
  have "nat (- 1 + int (length xs)) = length xs - 1" by linarith
  with ne len show ?thesis
    by (simp add: iloc_def Let_def last_conv_nth)
qed

lemma price_drop_of_nonempty:
  "bars df \<noteq> [] \<Longrightarrow> price_drop_of df = Inr (spec_price_drop_percent df)"
  by (simp add: price_drop_of_def iloc_first iloc_last spec_price_drop_percent_def Let_def)

lemma update_fresh: "k \<notin> fst ` set al \<Longrightarrow> AList.update k v al = al @ [(k, v)]"
  by (induction al) auto

lemma price_drop_loop_after:
  "\<exists>out. price_drop_loop thr items acc = Inr (map (\<lambda>(s, df). (s, annotated df)) items, out) \<and>
         fst ` set out \<subseteq> fst ` set acc \<union> {s. \<exists>df. (s, df) \<in> set items \<and> bars df \<noteq> []}"
proof (induction items arbitrary: acc)
  case Nil
  show ?case by simp
next
  case (Cons item items)
  obtain s df where item: "item = (s, df)" by (cases item)
  show ?case
  proof (cases "bars df = []")
    case True
    from Cons.IH [of acc] obtain out where
      run: "price_drop_loop thr items acc = Inr (map (\<lambda>(s, df). (s, annotated df)) items, out)"
      and keys: "fst ` set out \<subseteq> fst ` set acc \<union> {s. \<exists>df. (s, df) \<in> set items \<and> bars df \<noteq> []}"
      by blast
    from run True item have
      "price_drop_loop thr (item # items) acc = Inr (map (\<lambda>(s, df). (s, annotated df)) (item # items), out)"
      by (simp add: price_empty_def annotated_def)
    moreover from keys have
      "fst ` set out \<subseteq> fst ` set acc \<union> {s. \<exists>df. (s, df) \<in> set (item # items) \<and> bars df \<noteq> []}"
      by auto
    ultimately show ?thesis by blast
  next
    case False
    let ?pd = "spec_price_drop_percent df"
    let ?acc' = "if np_le ?pd (Fin thr) then AList.update s (set_price_drop ?pd df) acc else acc"
    from Cons.IH [of ?acc'] obtain out where
      run: "price_drop_loop thr items ?acc' = Inr (map (\<lambda>(s, df). (s, annotated df)) items, out)"
      and keys: "fst ` set out \<subseteq> fst ` set ?acc' \<union> {s. \<exists>df. (s, df) \<in> set items \<and> bars df \<noteq> []}"
      by blast
    from run False item have
      "price_drop_loop thr (item # items) acc = Inr (map (\<lambda>(s, df). (s, annotated df)) (item # items), out)"
      by (simp add: price_empty_def annotated_def price_drop_of_nonempty Let_def)
    moreover have sub: "fst ` set ?acc' \<subseteq> insert s (fst ` set acc)"
      by (simp add: dom_update subset_insertI)
    have grow: "{s. \<exists>df. (s, df) \<in> set (item # items) \<and> bars df \<noteq> []} =
        insert s {s. \<exists>df. (s, df) \<in> set items \<and> bars df \<noteq> []}"
      using False item by auto
    have "fst ` set out \<subseteq> fst ` set acc \<union> {s. \<exists>df. (s, df) \<in> set (item # items) \<and> bars df \<noteq> []}"
      unfolding grow using keys sub by blast
    ultimately show ?thesis by blast
  qed
qed

lemma price_drop_loop_char:
  "distinct (map fst items) \<Longrightarrow> fst ` set items \<inter> fst ` set acc = {} \<Longrightarrow>
   price_drop_loop thr items acc =
     Inr (map (\<lambda>(s, df). (s, annotated df)) items,
          acc @ map (\<lambda>(s, df). (s, set_price_drop (spec_price_drop_percent df) df))
                  (filter (\<lambda>(s, df). bars df \<noteq> [] \<and> np_le (spec_price_drop_percent df) (Fin thr)) items))"
proof (induction items arbitrary: acc)
  case Nil
  then show ?case by simp
next
  case (Cons item items)
  obtain s df where item: "item = (s, df)" by (cases item)
  from Cons.prems item have fresh: "s \<notin> fst ` set acc" and notin: "s \<notin> fst ` set items"
    and dist: "distinct (map fst items)" and disj: "fst ` set items \<inter> fst ` set acc = {}"
    by auto
  show ?case
  proof (cases "bars df = []")
    case True
    with Cons.IH [OF dist disj] item show ?thesis
      by (simp add: price_empty_def annotated_def)
  next
    case False
    let ?pd = "spec_price_drop_percent df"
    show ?thesis
    proof (cases "np_le ?pd (Fin thr)")
      case True
      have disj': "fst ` set items \<inter> fst ` set (acc @ [(s, set_price_drop ?pd df)]) = {}"
        using disj notin by auto
      from Cons.IH [OF dist disj'] False True item fresh show ?thesis
        by (simp add: price_empty_def annotated_def price_drop_of_nonempty update_fresh Let_def)
    next
      case np: False
      from Cons.IH [OF dist disj] False np item show ?thesis
        by (simp add: price_empty_def annotated_def price_drop_of_nonempty Let_def)
    qed
  qed
qed

lemma spec_price_drop_finite:
  "close (hd (bars df)) \<noteq> 0 \<Longrightarrow>
   spec_price_drop_percent df =
     Fin ((close (hd (bars df)) - close (last (bars df))) / close (hd (bars df)) * 100)"
  by (simp add: spec_price_drop_percent_def np_div_def)

lemma two_day_price_drop:
  "a \<noteq> 0 \<Longrightarrow> spec_price_drop_percent (two_day_series a b) = Fin ((a - b) / a * 100)"
  by (simp add: spec_price_drop_percent_def np_div_def two_day_series_def flat_bar_def)

text \<open>
  C1, as amended. On a dictionary (keys distinct) the filter returns exactly the symbols
  whose series is not empty and whose price drop, computed as
  \<open>(first.close - last.close) / first.close * 100\<close>, is at most the threshold, each with
  its frame annotated; with a first close other than zero the price drop is that finite
  number; a series from 100 to 80 is excluded at threshold -10; and with a threshold that
  is negative or zero a series whose price drop is positive is never returned.
\<close>

theorem price_drop_filter_rule:
  assumes "distinct (map fst prices_dict)"
  shows "(\<exists>after. filter_by_price_drop prices_dict thr =
            Inr (after,
                 map (\<lambda>(s, df). (s, set_price_drop (spec_price_drop_percent df) df))
                   (filter (\<lambda>(s, df). bars df \<noteq> [] \<and> np_le (spec_price_drop_percent df) (Fin thr))
                      prices_dict))) \<and>
         (\<forall>s df. (s, df) \<in> set prices_dict \<and> close (hd (bars df)) \<noteq> 0 \<longrightarrow>
            spec_price_drop_percent df =
              Fin ((close (hd (bars df)) - close (last (bars df))) / close (hd (bars df)) * 100)) \<and>
         (\<exists>after. filter_by_price_drop [(s0, two_day_series 100 80)] (- 10) = Inr (after, [])) \<and>
         (\<forall>after out s df p. thr \<le> 0 \<and> filter_by_price_drop prices_dict thr = Inr (after, out) \<and>
            (s, df) \<in> set prices_dict \<and> spec_price_drop_percent df = Fin p \<and> 0 < p \<longrightarrow>
            s \<notin> fst ` set out)"
proof -
  have run: "filter_by_price_drop prices_dict thr =
      Inr (map (\<lambda>(s, df). (s, annotated df)) prices_dict,
           map (\<lambda>(s, df). (s, set_price_drop (spec_price_drop_percent df) df))
             (filter (\<lambda>(s, df). bars df \<noteq> [] \<and> np_le (spec_price_drop_percent df) (Fin thr))
                prices_dict))"
    using price_drop_loop_char [OF assms, of "[]" thr] by (simp add: filter_by_price_drop_def)
  have example: "filter_by_price_drop [(s0, two_day_series 100 80)] (- 10) =
      Inr ([(s0, annotated (two_day_series 100 80))], [])"
    using price_drop_loop_char [of "[(s0, two_day_series 100 80)]" "[]" "- 10"]
    by (simp add: filter_by_price_drop_def two_day_price_drop)
  have positive: "s \<notin> fst ` set out"
    if "thr \<le> 0" and res: "filter_by_price_drop prices_dict thr = Inr (after, out)"
      and mem: "(s, df) \<in> set prices_dict" and pd: "spec_price_drop_percent df = Fin p" and "0 < p"
    for after out s df p
  proof
    assume "s \<in> fst ` set out"
    with res run obtain df' where in_f: "(s, df') \<in> set prices_dict"
      and pass: "np_le (spec_price_drop_percent df') (Fin thr)"
      by auto
    from assms mem in_f have "df' = df"
      by (meson eq_key_imp_eq_value)
    with pass pd have "p \<le> thr" by simp
    with \<open>thr \<le> 0\<close> \<open>0 < p\<close> show False by simp
  qed
  have c1: "\<exists>after. filter_by_price_drop prices_dict thr =
            Inr (after,
                 map (\<lambda>(s, df). (s, set_price_drop (spec_price_drop_percent df) df))
                   (filter (\<lambda>(s, df). bars df \<noteq> [] \<and> np_le (spec_price_drop_percent df) (Fin thr))
                      prices_dict))"
    using run by blast
  have c2: "\<forall>s df. (s, df) \<in> set prices_dict \<and> close (hd (bars df)) \<noteq> 0 \<longrightarrow>
            spec_price_drop_percent df =
              Fin ((close (hd (bars df)) - close (last (bars df))) / close (hd (bars df)) * 100)"
    by (simp add: spec_price_drop_finite)
  have c3: "\<exists>after. filter_by_price_drop [(s0, two_day_series 100 80)] (- 10) = Inr (after, [])"
    using example by blast
  have c4: "\<forall>after out s df p. thr \<le> 0 \<and> filter_by_price_drop prices_dict thr = Inr (after, out) \<and>
            (s, df) \<in> set prices_dict \<and> spec_price_drop_percent df = Fin p \<and> 0 < p \<longrightarrow>
            s \<notin> fst ` set out"
    using positive by blast
  from c1 c2 c3 c4 show ?thesis by blast
qed

text \<open>
  C1 as first stated fails: a series that rises from 100 to 120 has price drop -20 and
  passes the filter at threshold -10.
\<close>

theorem rising_series_passes:
  "close (hd (bars (two_day_series 100 120))) < close (last (bars (two_day_series 100 120))) \<and>
   filter_by_price_drop [(''XYZ'', two_day_series 100 120)] (- 10) =
     Inr ([(''XYZ'', set_price_drop (Fin (- 20)) (two_day_series 100 120))],
          [(''XYZ'', set_price_drop (Fin (- 20)) (two_day_series 100 120))])"
  by (simp add: filter_by_price_drop_def price_empty_def price_drop_of_def iloc_def np_div_def
      two_day_series_def flat_bar_def Let_def)

theorem price_drop_filter_rule_witness:
  "distinct (map fst e2e_prices) \<and>
   (\<exists>after. filter_by_price_drop e2e_prices (- 10) =
      Inr (after, [(''XYZ'', set_price_drop (Fin (- 10)) (two_day_series 100 110))]))"
proof -
  have d: "distinct (map fst e2e_prices)" by (simp add: e2e_prices_def)
  from price_drop_filter_rule [OF d, of "- 10"] obtain after where
    "filter_by_price_drop e2e_prices (- 10) =
       Inr (after,
            map (\<lambda>(s, df). (s, set_price_drop (spec_price_drop_percent df) df))
              (filter (\<lambda>(s, df). bars df \<noteq> [] \<and> np_le (spec_price_drop_percent df) (Fin (- 10)))
                 e2e_prices))"
    by blast
  then have "filter_by_price_drop e2e_prices (- 10) =
       Inr (after, [(''XYZ'', set_price_drop (Fin (- 10)) (two_day_series 100 110))])"
    by (simp add: e2e_prices_def two_day_price_drop) (simp add: two_day_series_def)
  with d show ?thesis by blast
qed

text \<open>
  C9. On every dictionary the filter returns a result, never an error, and a symbol is
  returned only if it has a series that is not empty; the computation of the price drop
  itself would raise an IndexError on an empty series, and the filter never runs it there.
\<close>

theorem price_drop_filter_total:
  "(\<exists>after out. filter_by_price_drop prices_dict thr = Inr (after, out) \<and>
      (\<forall>s. s \<in> fst ` set out \<longrightarrow> (\<exists>df. (s, df) \<in> set prices_dict \<and> bars df \<noteq> []))) \<and>
   (\<forall>df. bars df = [] \<longrightarrow> price_drop_of df = Inl IndexError)"
proof -
  from price_drop_loop_after [of thr prices_dict "[]"] obtain out where
    run: "filter_by_price_drop prices_dict thr = Inr (map (\<lambda>(s, df). (s, annotated df)) prices_dict, out)"
    and keys: "fst ` set out \<subseteq> {s. \<exists>df. (s, df) \<in> set prices_dict \<and> bars df \<noteq> []}"
    by (auto simp: filter_by_price_drop_def)
  have "\<forall>s. s \<in> fst ` set out \<longrightarrow> (\<exists>df. (s, df) \<in> set prices_dict \<and> bars df \<noteq> [])"
    using keys by blast
  with run have first: "\<exists>after out. filter_by_price_drop prices_dict thr = Inr (after, out) \<and>
      (\<forall>s. s \<in> fst ` set out \<longrightarrow> (\<exists>df. (s, df) \<in> set prices_dict \<and> bars df \<noteq> []))"
    by blast
  have second: "\<forall>df. bars df = [] \<longrightarrow> price_drop_of df = Inl IndexError"
    by (simp add: price_drop_of_def iloc_def)
  from first second show ?thesis by blast
qed

theorem price_drop_filter_total_witness:
  "\<exists>after out. filter_by_price_drop sparse_prices (- 10) = Inr (after, out) \<and>
     ''NEW'' \<notin> fst ` set out \<and> price_drop_of no_data = Inl IndexError"
proof -
  from price_drop_filter_total [of sparse_prices "- 10"] obtain after out where
    run: "filter_by_price_drop sparse_prices (- 10) = Inr (after, out)"
    and keys: "\<forall>s. s \<in> fst ` set out \<longrightarrow> (\<exists>df. (s, df) \<in> set sparse_prices \<and> bars df \<noteq> [])"
    and raise: "\<forall>df. bars df = [] \<longrightarrow> price_drop_of df = Inl IndexError"
    by blast
  have "''NEW'' \<notin> fst ` set out"
  proof
    assume "''NEW'' \<in> fst ` set out"
    with keys obtain df where "(''NEW'', df) \<in> set sparse_prices" and "bars df \<noteq> []"
      by blast
    then show False by (simp add: sparse_prices_def no_data_def)
  qed
  moreover from raise have "price_drop_of no_data = Inl IndexError"
    by (simp add: no_data_def)
  ultimately show ?thesis using run by blast
qed

section \<open>Properties of the insider-buy filter\<close>

lemma match_here_prefix: "match_here pat s \<longleftrightarrow> prefix (str_lower pat) (str_lower s)"
  by (induction pat s rule: match_here.induct) (auto simp: str_lower_def)

lemma str_contains_sublist: "str_contains s pat \<longleftrightarrow> sublist (str_lower pat) (str_lower s)"
proof (induction s)
  case Nil
  show ?case by (cases pat) (simp_all add: str_lower_def)
next
  case (Cons c cs)
  have "str_contains (c # cs) pat \<longleftrightarrow>
      prefix (str_lower pat) (str_lower (c # cs)) \<or> sublist (str_lower pat) (str_lower cs)"
    using Cons.IH by (simp add: match_here_prefix)
  also have "\<dots> \<longleftrightarrow> sublist (str_lower pat) (str_lower (c # cs))"
    by (simp add: str_lower_def sublist_Cons_right)
  finally show ?case .
qed

lemma is_ceo_buy_spec: "is_ceo_buy t = spec_insider_buy t"
  by (auto simp: is_ceo_buy_def spec_insider_buy_def str_contains_sublist)

lemma select_rows_filter: "select_rows (map P xs) xs = filter P xs"
  by (induction xs) (simp_all add: select_rows_def)

lemma trades_boolean_index:
  "trades (boolean_index (map is_ceo_buy (trades df)) df) = filter spec_insider_buy (trades df)"
proof -
  have "is_ceo_buy = spec_insider_buy" by (rule ext) (rule is_ceo_buy_spec)
  then show ?thesis by (simp add: boolean_index_def select_rows_filter)
qed

lemma senior_director_matches:
  "str_contains ''Senior Director of Engineering'' ''director''"
  by code_simp

lemma vice_president_matches_none:
  "\<not> str_contains ''Vice President'' ''CEO'' \<and> \<not> str_contains ''Vice President'' ''CFO'' \<and>
   \<not> str_contains ''Vice President'' ''COO'' \<and> \<not> str_contains ''Vice President'' ''director''"
  by code_simp

lemma ceo_matches: "str_contains ''CEO'' ''CEO''"
  by code_simp

lemma sale_is_no_purchase: "''S-Sale'' \<noteq> ''P-Purchase''"
  by simp

lemma senior_director_buy:
  "is_ceo_buy (insider ''Senior Director of Engineering'' ''P-Purchase'' a b)"
  unfolding is_ceo_buy_def insider_def
  by (simp only: trade.select_convs senior_director_matches simp_thms)

lemma vice_president_buy: "\<not> is_ceo_buy (insider ''Vice President'' ''P-Purchase'' a b)"
  unfolding is_ceo_buy_def insider_def
  using vice_president_matches_none by (simp only: trade.select_convs simp_thms)

lemma ceo_buy: "is_ceo_buy (insider ''CEO'' ''P-Purchase'' a b)"
  unfolding is_ceo_buy_def insider_def
  by (simp only: trade.select_convs ceo_matches simp_thms)

lemma ceo_sale: "\<not> is_ceo_buy (insider ''CEO'' ''S-Sale'' a b)"
  unfolding is_ceo_buy_def insider_def
  using sale_is_no_purchase by (simp only: trade.select_convs simp_thms)

lemma ceo_fold_char:
  "distinct (map fst items) \<Longrightarrow> fst ` set items \<inter> fst ` set acc = {} \<Longrightarrow>
   fold (\<lambda>(symbol, df) filtered_trades_dict.
           (let ceo_buys = boolean_index (map is_ceo_buy (trades df)) df
            in if trades ceo_buys \<noteq> [] then AList.update symbol ceo_buys filtered_trades_dict
               else filtered_trades_dict)) items acc =
   acc @ map (\<lambda>(s, df). (s, boolean_index (map is_ceo_buy (trades df)) df))
           (filter (\<lambda>(s, df). filter spec_insider_buy (trades df) \<noteq> []) items)"
proof (induction items arbitrary: acc)
  case Nil
  show ?case by simp
next
  case (Cons item items)
  obtain s df where item: "item = (s, df)" by (cases item)
  let ?buys = "boolean_index (map is_ceo_buy (trades df)) df"
  from Cons.prems item have fresh: "s \<notin> fst ` set acc" and notin: "s \<notin> fst ` set items"
    and dist: "distinct (map fst items)" and disj: "fst ` set items \<inter> fst ` set acc = {}"
    by auto
  show ?case
  proof (cases "filter spec_insider_buy (trades df) = []")
    case True
    with Cons.IH [OF dist disj] item show ?thesis
      by (simp add: trades_boolean_index Let_def)
  next
    case False
    have disj': "fst ` set items \<inter> fst ` set (acc @ [(s, ?buys)]) = {}"
      using disj notin by auto
    from Cons.IH [OF dist disj'] False item fresh show ?thesis
      by (simp add: trades_boolean_index Let_def update_fresh)
  qed
qed

lemma filter_by_ceo_buys_char:
  assumes "distinct (map fst d)"
  shows "filter_by_ceo_buys d =
     map (\<lambda>(s, df). (s, boolean_index (map is_ceo_buy (trades df)) df))
       (filter (\<lambda>(s, df). filter spec_insider_buy (trades df) \<noteq> []) d)"
  using ceo_fold_char [OF assms, of "[]"] by (simp add: filter_by_ceo_buys_def)

text \<open>
  C3. On a dictionary (keys distinct) the filter keeps, for each symbol and in order,
  exactly the transactions of type \<open>P-Purchase\<close> whose owner type contains CEO, CFO, COO
  or director, letter case ignored, and it returns exactly the symbols that have at least
  one such transaction. A purchase by a "Senior Director of Engineering" qualifies, a
  purchase by a "Vice President" and a sale by a "CEO" do not.
\<close>

theorem insider_buy_filter_rule:
  assumes "distinct (map fst insider_trades_dict)"
  shows "map (\<lambda>(s, df). (s, trades df)) (filter_by_ceo_buys insider_trades_dict) =
           map (\<lambda>(s, df). (s, filter spec_insider_buy (trades df)))
             (filter (\<lambda>(s, df). \<exists>t \<in> set (trades df). spec_insider_buy t) insider_trades_dict) \<and>
         is_ceo_buy (insider ''Senior Director of Engineering'' ''P-Purchase'' a b) \<and>
         \<not> is_ceo_buy (insider ''Vice President'' ''P-Purchase'' a b) \<and>
         \<not> is_ceo_buy (insider ''CEO'' ''S-Sale'' a b)"
proof -
  have main: "map (\<lambda>(s, df). (s, trades df)) (filter_by_ceo_buys insider_trades_dict) =
      map (\<lambda>(s, df). (s, filter spec_insider_buy (trades df)))
        (filter (\<lambda>(s, df). \<exists>t \<in> set (trades df). spec_insider_buy t) insider_trades_dict)"
    by (simp add: filter_by_ceo_buys_char [OF assms] trades_boolean_index case_prod_unfold comp_def
        filter_empty_conv)
  with senior_director_buy vice_president_buy ceo_sale show ?thesis by blast
qed

theorem insider_buy_filter_rule_witness:
  "distinct (map fst mixed_trades) \<and>
   map (\<lambda>(s, df). (s, trades df)) (filter_by_ceo_buys mixed_trades) =
     [(''ABC'', [insider ''CEO'' ''P-Purchase'' 1000 10000])]"
proof -
  have d: "distinct (map fst mixed_trades)" by (simp add: mixed_trades_def)
  from insider_buy_filter_rule [OF d] have
    "map (\<lambda>(s, df). (s, trades df)) (filter_by_ceo_buys mixed_trades) =
       map (\<lambda>(s, df). (s, filter spec_insider_buy (trades df)))
         (filter (\<lambda>(s, df). \<exists>t \<in> set (trades df). spec_insider_buy t) mixed_trades)"
    by blast
  also have "\<dots> = [(''ABC'', [insider ''CEO'' ''P-Purchase'' 1000 10000])]"
    using ceo_buy [of 1000 10000] vice_president_buy [of 500 1000] ceo_sale [of 200 4000]
    by (simp add: mixed_trades_def raw_trades_def is_ceo_buy_spec)
  finally show ?thesis using d by blast
qed

section \<open>Properties of the aggregation\<close>

lemma attach_columns_ok:
  assumes "series_price_drop fp s = Some v"
  shows "attach_columns fp s df = Inr (with_columns s v df)"
proof -
  from assms obtain pdf col where look: "map_of fp s = Some pdf"
    and col: "price_drop_col pdf = Some col" and ne: "col \<noteq> []" and v: "v = last col"
    by (auto simp: series_price_drop_def split: option.splits if_splits)
  from ne have "iloc col (- 1) = Inr (last col)" by (rule iloc_last)
  with look col v show ?thesis
    by (simp add: attach_columns_def with_columns_def spec_ownership_change_def Let_def)
qed

lemma zip_columns:
  "map (\<lambda>(s, oc, pd). g s oc pd)
     (zip (replicate (length ts) s) (zip (map f ts) (replicate (length ts) v))) =
   map (\<lambda>t. g s (f t) v) ts"
  by (induction ts) simp_all

lemma project_with_columns:
  "project_candidates (with_columns s v df) = Inr (candidate_rows s v df)"
  by (simp add: project_candidates_def with_columns_def candidate_rows_def zip_columns)

lemma candidates_loop_char:
  assumes "\<forall>(s, df) \<in> set ft. series_price_drop fp s \<noteq> None"
  shows "candidates_loop fp ft =
     Inr (map (\<lambda>(s, df). (s, with_columns s (the (series_price_drop fp s)) df)) ft,
          map (\<lambda>(s, df). candidate_rows s (the (series_price_drop fp s)) df) ft)"
  using assms
proof (induction ft)
  case Nil
  show ?case by simp
next
  case (Cons item ft)
  obtain s df where item: "item = (s, df)" by (cases item)
  with Cons.prems obtain v where v: "series_price_drop fp s = Some v" by auto
  from Cons.prems have "\<forall>(s, df) \<in> set ft. series_price_drop fp s \<noteq> None" by simp
  from Cons.IH [OF this] item v show ?case
    by (simp add: attach_columns_ok project_with_columns)
qed

lemma filter_other_symbol:
  "s \<notin> fst ` set ft \<Longrightarrow>
   filter (\<lambda>r. symbol r = s) (concat (map (\<lambda>(s', df). candidate_rows s' (pd s') df) ft)) = []"
  by (induction ft) (auto simp: candidate_rows_def)

lemma filter_own_symbol:
  "filter (\<lambda>r. symbol r = s) (candidate_rows s v df) = candidate_rows s v df"
  by (simp add: candidate_rows_def)

lemma filter_foreign_symbol:
  "s' \<noteq> s \<Longrightarrow> filter (\<lambda>r. symbol r = s) (candidate_rows s' v df) = []"
  by (simp add: candidate_rows_def)

lemma group_of_symbol:
  "distinct (map fst ft) \<Longrightarrow> (s, df) \<in> set ft \<Longrightarrow>
   filter (\<lambda>r. symbol r = s) (concat (map (\<lambda>(s', df). candidate_rows s' (pd s') df) ft)) =
     candidate_rows s (pd s) df"
proof (induction ft)
  case Nil
  then show ?case by simp
next
  case (Cons item ft)
  obtain s' df' where item: "item = (s', df')" by (cases item)
  show ?case
  proof (cases "s' = s")
    case True
    with Cons.prems item have "df' = df" and "s \<notin> fst ` set ft"
      by (auto simp: image_iff)
    with True item show ?thesis
      by (simp add: filter_own_symbol filter_other_symbol)
  next
    case False
    with Cons.prems item have "(s, df) \<in> set ft" and "distinct (map fst ft)" by auto
    with Cons.IH False item show ?thesis
      by (simp add: filter_foreign_symbol)
  qed
qed

lemma symbols_of_rows:
  "\<forall>(s, df) \<in> set ft. trades df \<noteq> [] \<Longrightarrow>
   set (map symbol (concat (map (\<lambda>(s', df). candidate_rows s' (pd s') df) ft))) = fst ` set ft"
proof (induction ft)
  case Nil
  show ?case by simp
next
  case (Cons item ft)
  obtain s df where item: "item = (s, df)" by (cases item)
  with Cons.prems have ne: "trades df \<noteq> []" by simp
  then have "set (map symbol (candidate_rows s (pd s) df)) = {s}"
    by (cases "trades df") (auto simp: candidate_rows_def)
  moreover from Cons have "set (map symbol (concat (map (\<lambda>(s', df). candidate_rows s' (pd s') df) ft))) = fst ` set ft"
    by simp
  ultimately show ?case using item by auto
qed

lemma sort_remdups_keys:
  fixes xs ys :: "string list"
  assumes "set xs = set ys" and "distinct ys"
  shows "sort (remdups xs) = sort ys"
proof -
  have "sort (remdups xs) = sorted_list_of_set (set xs)"
    by (simp add: sorted_list_of_set_sort_remdups)
  also have "\<dots> = sort (remdups ys)"
    using assms(1) by (simp add: sorted_list_of_set_sort_remdups)
  also have "\<dots> = sort ys"
    using assms(2) by (simp add: distinct_remdups_id)
  finally show ?thesis .
qed

lemma groupby_mean_symbols:
  assumes "distinct (map fst ft)" and "\<forall>(s, df) \<in> set ft. trades df \<noteq> []"
  shows "map symbol (groupby_mean (concat (map (\<lambda>(s', df). candidate_rows s' (pd s') df) ft))) =
     sort (map fst ft)"
proof -
  let ?tbl = "concat (map (\<lambda>(s', df). candidate_rows s' (pd s') df) ft)"
  have "set (map symbol ?tbl) = set (map fst ft)"
    using symbols_of_rows [OF assms(2)] by simp
  then have "sort (remdups (map symbol ?tbl)) = sort (map fst ft)"
    using assms(1) by (rule sort_remdups_keys)
  then show ?thesis
    by (simp add: groupby_mean_def comp_def Let_def)
qed

lemma groupby_mean_row:
  assumes "distinct (map fst ft)" and "\<forall>(s, df) \<in> set ft. trades df \<noteq> []" and "(s, df) \<in> set ft"
  shows "\<lparr>symbol = s,
          ownership_change = nanmean (map spec_ownership_change (trades df)),
          price_drop = nanmean (map (\<lambda>t. pd s) (trades df))\<rparr>
         \<in> set (groupby_mean (concat (map (\<lambda>(s', df). candidate_rows s' (pd s') df) ft)))"
proof -
  let ?tbl = "concat (map (\<lambda>(s', df). candidate_rows s' (pd s') df) ft)"
  from assms(3) have "s \<in> set (map fst ft)" by force
  then have key: "s \<in> set (sort (remdups (map symbol ?tbl)))"
    using symbols_of_rows [OF assms(2), of pd] by simp
  have grp: "filter (\<lambda>r. symbol r = s) ?tbl = candidate_rows s (pd s) df"
    using assms(1,3) by (rule group_of_symbol)
  define row where "row k =
      \<lparr>symbol = k,
       ownership_change = nanmean (map ownership_change (filter (\<lambda>r. symbol r = k) ?tbl)),
       price_drop = nanmean (map price_drop (filter (\<lambda>r. symbol r = k) ?tbl))\<rparr>" for k
  have "groupby_mean ?tbl = map row (sort (remdups (map symbol ?tbl)))"
    by (simp add: groupby_mean_def row_def Let_def)
  with key have "row s \<in> set (groupby_mean ?tbl)"
    by (simp del: set_sort set_remdups)
  then have "\<lparr>symbol = s,
       ownership_change = nanmean (map ownership_change (candidate_rows s (pd s) df)),
       price_drop = nanmean (map price_drop (candidate_rows s (pd s) df))\<rparr>
      \<in> set (groupby_mean ?tbl)"
    unfolding row_def grp .
  then show ?thesis
    by (simp add: candidate_rows_def [of s] comp_def)
qed

lemma aggregate_char:
  assumes "ft \<noteq> []" and "\<forall>(s, df) \<in> set ft. series_price_drop fp s \<noteq> None"
  shows "aggregate_candidates fp ft =
     Inr (map (\<lambda>(s, df). (s, with_columns s (the (series_price_drop fp s)) df)) ft,
          Some (groupby_mean
                  (concat (map (\<lambda>(s, df). candidate_rows s (the (series_price_drop fp s)) df) ft))),
          [ToCsv (groupby_mean
                    (concat (map (\<lambda>(s, df). candidate_rows s (the (series_price_drop fp s)) df) ft)))])"
  using assms(1) by (simp add: aggregate_candidates_def candidates_loop_char [OF assms(2)] Let_def)

text \<open>
  C4. When every symbol of the insider-filtered dictionary (keys distinct, not empty) has
  at least one qualifying transaction and a series with a price drop, the aggregator
  returns a table with exactly one row per symbol, in sorted order; the row's
  \<open>ownership_change\<close> is the mean of \<open>securities_transacted / securities_owned * 100\<close>
  over the symbol's transactions, and its \<open>price_drop\<close> is the mean of the series' price
  drop attached to each of them.
\<close>

theorem aggregator_means:
  assumes "distinct (map fst ft)" and "ft \<noteq> []"
    and "\<forall>(s, df) \<in> set ft. trades df \<noteq> [] \<and> series_price_drop fp s \<noteq> None"
  shows "\<exists>after tbl. aggregate_candidates fp ft = Inr (after, Some tbl, [ToCsv tbl]) \<and>
           map symbol tbl = sort (map fst ft) \<and>
           (\<forall>(s, df) \<in> set ft. \<forall>v. series_price_drop fp s = Some v \<longrightarrow>
              \<lparr>symbol = s,
               ownership_change = nanmean (map spec_ownership_change (trades df)),
               price_drop = nanmean (map (\<lambda>t. v) (trades df))\<rparr> \<in> set tbl)"
proof -
  define pd where "pd s = the (series_price_drop fp s)" for s
  define tbl where "tbl = groupby_mean (concat (map (\<lambda>(s, df). candidate_rows s (pd s) df) ft))"
  from assms(3) have has_drop: "\<forall>(s, df) \<in> set ft. series_price_drop fp s \<noteq> None"
    and has_rows: "\<forall>(s, df) \<in> set ft. trades df \<noteq> []"
    by auto
  have run: "aggregate_candidates fp ft =
      Inr (map (\<lambda>(s, df). (s, with_columns s (pd s) df)) ft, Some tbl, [ToCsv tbl])"
    unfolding tbl_def pd_def using assms(2) has_drop by (rule aggregate_char)
  have syms: "map symbol tbl = sort (map fst ft)"
    unfolding tbl_def using assms(1) has_rows by (rule groupby_mean_symbols)
  have rows: "\<lparr>symbol = s,
         ownership_change = nanmean (map spec_ownership_change (trades df)),
         price_drop = nanmean (map (\<lambda>t. v) (trades df))\<rparr> \<in> set tbl"
    if "(s, df) \<in> set ft" and "series_price_drop fp s = Some v" for s df v
  proof -
    from that(2) have "pd s = v" by (simp add: pd_def)
    with groupby_mean_row [OF assms(1) has_rows that(1), of pd] show ?thesis
      by (simp add: tbl_def)
  qed
  from run syms rows show ?thesis by blast
qed

theorem aggregator_means_witness:
  "distinct (map fst p4_trades) \<and> p4_trades \<noteq> [] \<and>
   (\<exists>after. aggregate_candidates p4_prices p4_trades =
      Inr (after,
           Some [\<lparr>symbol = ''ABC'', ownership_change = Fin 10, price_drop = Fin 20\<rparr>],
           [ToCsv [\<lparr>symbol = ''ABC'', ownership_change = Fin 10, price_drop = Fin 20\<rparr>]]))"
proof -
  have d: "distinct (map fst p4_trades)" and ne: "p4_trades \<noteq> []"
    by (simp_all add: p4_trades_def)
  have drop: "series_price_drop p4_prices ''ABC'' = Some (Fin 20)"
    by (simp add: series_price_drop_def p4_prices_def set_price_drop_def two_day_series_def)
  have hyp: "\<forall>(s, df) \<in> set p4_trades. trades df \<noteq> [] \<and> series_price_drop p4_prices s \<noteq> None"
    using drop by (simp add: p4_trades_def raw_trades_def)
  from aggregator_means [OF d ne hyp] obtain after tbl where
    run: "aggregate_candidates p4_prices p4_trades = Inr (after, Some tbl, [ToCsv tbl])"
    and syms: "map symbol tbl = sort (map fst p4_trades)"
    and rows: "\<forall>(s, df) \<in> set p4_trades. \<forall>v. series_price_drop p4_prices s = Some v \<longrightarrow>
              \<lparr>symbol = s,
               ownership_change = nanmean (map spec_ownership_change (trades df)),
               price_drop = nanmean (map (\<lambda>t. v) (trades df))\<rparr> \<in> set tbl"
    by blast
  from syms have "map symbol tbl = [''ABC'']" by (simp add: p4_trades_def)
  then obtain r where one: "tbl = [r]" by auto
  from rows drop have "\<lparr>symbol = ''ABC'', ownership_change = Fin 10, price_drop = Fin 20\<rparr> \<in> set tbl"
    by (simp add: p4_trades_def raw_trades_def insider_def spec_ownership_change_def np_div_def
        nanmean_def)
  with one have "tbl = [\<lparr>symbol = ''ABC'', ownership_change = Fin 10, price_drop = Fin 20\<rparr>]"
    by simp
  with run d ne show ?thesis by blast
qed

section \<open>The ownership change and a holding of zero\<close>









section \<open>The pipeline: the end-to-end scenario and the empty result\<close>

lemma e2e_price_filter:
  "filter_by_price_drop e2e_prices (- 10) =
     Inr ([(''ABC'', set_price_drop (Fin 30) (two_day_series 100 70)),
           (''XYZ'', set_price_drop (Fin (- 10)) (two_day_series 100 110))],
          [(''XYZ'', set_price_drop (Fin (- 10)) (two_day_series 100 110))])"
  by (simp add: filter_by_price_drop_def e2e_prices_def price_empty_def price_drop_of_def iloc_def
      np_div_def two_day_series_def flat_bar_def Let_def)

lemma e2e_fetch_prices:
  "fetch_multiple_daily_prices_by_date (map_of e2e_prices) [''ABC'', ''XYZ''] = e2e_prices"
  by (simp add: fetch_multiple_daily_prices_by_date_def e2e_prices_def)

lemma e2e_survivors:
  "surviving_trades (map_of e2e_trades)
     [(''XYZ'', set_price_drop (Fin (- 10)) (two_day_series 100 110))] = []"
  by (simp add: surviving_trades_def fetch_multiple_insider_trades_by_date_def e2e_trades_def
      filter_by_ceo_buys_def)

lemma aggregate_nothing: "aggregate_candidates fp [] = Inr ([], None, [])"
  by (simp add: aggregate_candidates_def)

lemma e2e_abc_alone:
  "aggregate_candidates [(''ABC'', set_price_drop (Fin 30) (two_day_series 100 70))]
     (filter_by_ceo_buys e2e_trades) =
   Inr ([(''ABC'', with_columns ''ABC'' (Fin 30)
                    (raw_trades [insider ''CEO'' ''P-Purchase'' 1000 10000]))],
        Some [\<lparr>symbol = ''ABC'', ownership_change = Fin 10, price_drop = Fin 30\<rparr>],
        [ToCsv [\<lparr>symbol = ''ABC'', ownership_change = Fin 10, price_drop = Fin 30\<rparr>]])"
proof -
  have keep: "filter_by_ceo_buys e2e_trades = e2e_trades"
    using ceo_buy [of 1000 10000]
    by (simp add: filter_by_ceo_buys_def e2e_trades_def raw_trades_def boolean_index_def
        select_rows_def)
  have drop: "series_price_drop [(''ABC'', set_price_drop (Fin 30) (two_day_series 100 70))] ''ABC'' =
      Some (Fin 30)"
    by (simp add: series_price_drop_def set_price_drop_def two_day_series_def)
  have ne: "e2e_trades \<noteq> []" by (simp add: e2e_trades_def)
  have hyp: "\<forall>(s, df) \<in> set e2e_trades.
      series_price_drop [(''ABC'', set_price_drop (Fin 30) (two_day_series 100 70))] s \<noteq> None"
    using drop by (simp add: e2e_trades_def)
  have "groupby_mean (candidate_rows ''ABC'' (Fin 30)
          (raw_trades [insider ''CEO'' ''P-Purchase'' 1000 10000])) =
      [\<lparr>symbol = ''ABC'', ownership_change = Fin 10, price_drop = Fin 30\<rparr>]"
    by (simp add: groupby_mean_def candidate_rows_def raw_trades_def insider_def
        spec_ownership_change_def np_div_def nanmean_def)
  with aggregate_char [OF ne hyp] drop show ?thesis
    unfolding keep by (simp add: e2e_trades_def)
qed

text \<open>
  C2. In the end-to-end scenario, at threshold -10, the price-drop filter drops ABC
  (price drop 30) and keeps XYZ (price drop -10); no trade is fetched for ABC, and
  \<open>find_candidates\<close> returns \<open>None\<close> and writes nothing. Had ABC passed the price
  filter, the rest of the pipeline would give the row of the scenario: ABC with
  ownership change 10.
\<close>

theorem e2e_scenario_result:
  "find_candidates (map_of e2e_prices) (map_of e2e_trades) [''ABC'', ''XYZ''] (- 10) =
     Inr (None, []) \<and>
   (\<exists>after. filter_by_price_drop e2e_prices (- 10) =
      Inr (after, [(''XYZ'', set_price_drop (Fin (- 10)) (two_day_series 100 110))])) \<and>
   (\<exists>after. aggregate_candidates [(''ABC'', set_price_drop (Fin 30) (two_day_series 100 70))]
        (filter_by_ceo_buys e2e_trades) =
      Inr (after, Some [\<lparr>symbol = ''ABC'', ownership_change = Fin 10, price_drop = Fin 30\<rparr>],
           [ToCsv [\<lparr>symbol = ''ABC'', ownership_change = Fin 10, price_drop = Fin 30\<rparr>]]))"
proof -
  have "find_candidates (map_of e2e_prices) (map_of e2e_trades) [''ABC'', ''XYZ''] (- 10) =
      Inr (None, [])"
    by (simp add: find_candidates_def e2e_fetch_prices e2e_price_filter e2e_survivors
        aggregate_nothing)
  with e2e_price_filter e2e_abc_alone show ?thesis by simp
qed

text \<open>
  C5. When no symbol survives the insider-buy filter, \<open>find_candidates\<close> returns
  \<open>None\<close>, which is not a table, and performs no effect: nothing is written, and the
  script plots nothing.
\<close>

theorem no_candidates_short_circuit:
  assumes "filter_by_price_drop (fetch_multiple_daily_prices_by_date fetch_prices symbol_list) thr =
             Inr (after, filtered_prices_dict)"
    and "surviving_trades fetch_trades filtered_prices_dict = []"
  shows "find_candidates fetch_prices fetch_trades symbol_list thr = Inr (None, []) \<and>
         main_script fetch_prices fetch_trades symbol_list thr = Inr [] \<and>
         (None :: candidate list option) \<noteq> Some []"
proof -
  have "find_candidates fetch_prices fetch_trades symbol_list thr = Inr (None, [])"
    using assms by (simp add: find_candidates_def aggregate_nothing)
  then show ?thesis by (simp add: main_script_def)
qed

theorem no_candidates_short_circuit_witness:
  "surviving_trades (map_of e2e_trades)
     [(''XYZ'', set_price_drop (Fin (- 10)) (two_day_series 100 110))] = [] \<and>
   find_candidates (map_of e2e_prices) (map_of e2e_trades) [''ABC'', ''XYZ''] (- 10) = Inr (None, []) \<and>
   main_script (map_of e2e_prices) (map_of e2e_trades) [''ABC'', ''XYZ''] (- 10) = Inr []"
proof -
  have run: "filter_by_price_drop
      (fetch_multiple_daily_prices_by_date (map_of e2e_prices) [''ABC'', ''XYZ'']) (- 10) =
      Inr ([(''ABC'', set_price_drop (Fin 30) (two_day_series 100 70)),
            (''XYZ'', set_price_drop (Fin (- 10)) (two_day_series 100 110))],
           [(''XYZ'', set_price_drop (Fin (- 10)) (two_day_series 100 110))])"
    by (simp only: e2e_fetch_prices e2e_price_filter)
  from no_candidates_short_circuit [OF run e2e_survivors] e2e_survivors show ?thesis
    by blast
qed

section \<open>What the stages write into the frames they receive\<close>

lemma set_update_sub: "set (AList.update k v al) \<subseteq> insert (k, v) (set al)"
  by (induction al) auto

lemma price_drop_loop_shares:
  "price_drop_loop thr items acc = Inr (after, out) \<Longrightarrow> set out \<subseteq> set acc \<union> set after"
proof (induction items arbitrary: acc after out)
  case Nil
  then show ?case by simp
next
  case (Cons item items)
  obtain s df where item: "item = (s, df)" by (cases item)
  show ?case
  proof (cases "bars df = []")
    case True
    with Cons.prems item obtain rest where
      run: "price_drop_loop thr items acc = Inr (rest, out)" and after: "after = (s, df) # rest"
      by (auto simp: price_empty_def split: sum.splits)
    from Cons.IH [OF run] after show ?thesis by auto
  next
    case False
    let ?pd = "spec_price_drop_percent df"
    let ?df' = "set_price_drop ?pd df"
    let ?acc' = "if np_le ?pd (Fin thr) then AList.update s ?df' acc else acc"
    from Cons.prems item False obtain rest where
      run: "price_drop_loop thr items ?acc' = Inr (rest, out)" and after: "after = (s, ?df') # rest"
      by (auto simp: price_empty_def price_drop_of_nonempty Let_def split: sum.splits)
    have "set ?acc' \<subseteq> insert (s, ?df') (set acc)"
      using set_update_sub [of s ?df' acc] by auto
    with Cons.IH [OF run] after show ?thesis by auto
  qed
qed

lemma attach_columns_frame:
  assumes "attach_columns fp s df = Inr df'"
  shows "trades df' = trades df \<and> symbol_col df' = Some (replicate (length (trades df)) s) \<and>
         ownership_change_col df' = Some (map spec_ownership_change (trades df))"
  using assms
  by (auto simp: attach_columns_def spec_ownership_change_def Let_def
      split: option.splits sum.splits)

lemma candidates_loop_frames:
  "candidates_loop fp ft = Inr (after, parts) \<Longrightarrow>
   map (\<lambda>(s, df). (s, trades df, symbol_col df, ownership_change_col df)) after =
   map (\<lambda>(s, df). (s, trades df, Some (replicate (length (trades df)) s),
                    Some (map spec_ownership_change (trades df)))) ft"
proof (induction ft arbitrary: after parts)
  case Nil
  then show ?case by simp
next
  case (Cons item ft)
  obtain s df where item: "item = (s, df)" by (cases item)
  from Cons.prems item obtain df' rest parts' where
    att: "attach_columns fp s df = Inr df'"
    and run: "candidates_loop fp ft = Inr (rest, parts')"
    and after: "after = (s, df') # rest"
    by (auto split: sum.splits)
  from attach_columns_frame [OF att] Cons.IH [OF run] after item show ?case
    by simp
qed

text \<open>
  C6, as amended. The price-drop filter leaves the keys, their order and the rows of every
  series of its input dictionary as they are, and an empty series untouched, but it writes
  the \<open>price_drop\<close> column into every series that is not empty, whether the series passes
  the threshold or not; the frames it returns are frames of the input dictionary as it
  leaves them. The aggregator leaves the keys and the transactions of the dictionary of
  trades as they are and writes the \<open>symbol\<close> and \<open>ownership_change\<close> columns into
  each of its frames.
\<close>

theorem stages_write_into_inputs:
  "(\<exists>out. filter_by_price_drop prices_dict thr =
            Inr (map (\<lambda>(s, df). (s, annotated df)) prices_dict, out) \<and>
          set out \<subseteq> set (map (\<lambda>(s, df). (s, annotated df)) prices_dict)) \<and>
   (\<forall>df. bars (annotated df) = bars df \<and>
         (bars df = [] \<longrightarrow> annotated df = df) \<and>
         (bars df \<noteq> [] \<longrightarrow>
            price_drop_col (annotated df) =
              Some (replicate (length (bars df)) (spec_price_drop_percent df)))) \<and>
   (\<forall>fp ft after res eff. aggregate_candidates fp ft = Inr (after, res, eff) \<longrightarrow>
      map (\<lambda>(s, df). (s, trades df, symbol_col df, ownership_change_col df)) after =
      map (\<lambda>(s, df). (s, trades df, Some (replicate (length (trades df)) s),
                       Some (map spec_ownership_change (trades df)))) ft)"
proof -
  from price_drop_loop_after [of thr prices_dict "[]"] obtain out where
    run: "filter_by_price_drop prices_dict thr =
      Inr (map (\<lambda>(s, df). (s, annotated df)) prices_dict, out)"
    by (auto simp: filter_by_price_drop_def)
  then have "set out \<subseteq> set [] \<union> set (map (\<lambda>(s, df). (s, annotated df)) prices_dict)"
    unfolding filter_by_price_drop_def by (rule price_drop_loop_shares)
  with run have first: "\<exists>out. filter_by_price_drop prices_dict thr =
            Inr (map (\<lambda>(s, df). (s, annotated df)) prices_dict, out) \<and>
          set out \<subseteq> set (map (\<lambda>(s, df). (s, annotated df)) prices_dict)"
    by auto
  have second: "\<forall>df. bars (annotated df) = bars df \<and>
         (bars df = [] \<longrightarrow> annotated df = df) \<and>
         (bars df \<noteq> [] \<longrightarrow>
            price_drop_col (annotated df) =
              Some (replicate (length (bars df)) (spec_price_drop_percent df)))"
    by (simp add: annotated_def set_price_drop_def)
  have third: "\<forall>fp ft after res eff. aggregate_candidates fp ft = Inr (after, res, eff) \<longrightarrow>
      map (\<lambda>(s, df). (s, trades df, symbol_col df, ownership_change_col df)) after =
      map (\<lambda>(s, df). (s, trades df, Some (replicate (length (trades df)) s),
                       Some (map spec_ownership_change (trades df)))) ft"
  proof (intro allI impI)
    fix fp ft after res eff
    assume "aggregate_candidates fp ft = Inr (after, res, eff)"
    then obtain parts where "candidates_loop fp ft = Inr (after, parts)"
      by (auto simp: aggregate_candidates_def Let_def split: sum.splits if_splits)
    then show "map (\<lambda>(s, df). (s, trades df, symbol_col df, ownership_change_col df)) after =
      map (\<lambda>(s, df). (s, trades df, Some (replicate (length (trades df)) s),
                       Some (map spec_ownership_change (trades df)))) ft"
      by (rule candidates_loop_frames)
  qed
  from first second third show ?thesis by blast
qed

text \<open>
  C6 as first stated fails: ABC, whose series falls from 100 to 70, fails the filter at
  threshold -10, and the filter has written the \<open>price_drop\<close> column into its frame.
\<close>

theorem failing_series_is_modified:
  "filter_by_price_drop [(''ABC'', two_day_series 100 70)] (- 10) =
     Inr ([(''ABC'', set_price_drop (Fin 30) (two_day_series 100 70))], []) \<and>
   set_price_drop (Fin 30) (two_day_series 100 70) \<noteq> two_day_series 100 70"
  by (simp add: filter_by_price_drop_def price_empty_def price_drop_of_def iloc_def
      np_div_def two_day_series_def flat_bar_def set_price_drop_def Let_def)

theorem stages_write_into_inputs_witness:
  "(\<exists>out. filter_by_price_drop e2e_prices (- 10) =
      Inr ([(''ABC'', set_price_drop (Fin 30) (two_day_series 100 70)),
            (''XYZ'', set_price_drop (Fin (- 10)) (two_day_series 100 110))], out)) \<and>
   (\<exists>after res eff. aggregate_candidates p4_prices p4_trades = Inr (after, res, eff) \<and>
      map (\<lambda>(s, df). (s, symbol_col df, ownership_change_col df)) after =
        [(''ABC'', Some [''ABC'', ''ABC''], Some [Fin 5, Fin 15])])"
proof -
  note inst = stages_write_into_inputs [of e2e_prices "- 10"]
  from inst obtain out where
    "filter_by_price_drop e2e_prices (- 10) =
       Inr (map (\<lambda>(s, df). (s, annotated df)) e2e_prices, out)"
    by blast
  then have first: "\<exists>out. filter_by_price_drop e2e_prices (- 10) =
      Inr ([(''ABC'', set_price_drop (Fin 30) (two_day_series 100 70)),
            (''XYZ'', set_price_drop (Fin (- 10)) (two_day_series 100 110))], out)"
    by (simp add: e2e_prices_def annotated_def two_day_price_drop) (simp add: two_day_series_def)
  have drop: "series_price_drop p4_prices ''ABC'' = Some (Fin 20)"
    by (simp add: series_price_drop_def p4_prices_def set_price_drop_def two_day_series_def)
  have ne: "p4_trades \<noteq> []" by (simp add: p4_trades_def)
  have hyp: "\<forall>(s, df) \<in> set p4_trades. series_price_drop p4_prices s \<noteq> None"
    using drop by (simp add: p4_trades_def)
  from aggregate_char [OF ne hyp] obtain after res eff where
    run: "aggregate_candidates p4_prices p4_trades = Inr (after, res, eff)"
    by blast
  with inst have "map (\<lambda>(s, df). (s, trades df, symbol_col df, ownership_change_col df)) after =
      map (\<lambda>(s, df). (s, trades df, Some (replicate (length (trades df)) s),
                       Some (map spec_ownership_change (trades df)))) p4_trades"
    by blast
  then have "map (\<lambda>p. (fst p, fst (snd (snd p)), snd (snd (snd p))))
        (map (\<lambda>(s, df). (s, trades df, symbol_col df, ownership_change_col df)) after) =
      map (\<lambda>p. (fst p, fst (snd (snd p)), snd (snd (snd p))))
        (map (\<lambda>(s, df). (s, trades df, Some (replicate (length (trades df)) s),
                       Some (map spec_ownership_change (trades df)))) p4_trades)"
    by simp
  then have cols: "map (\<lambda>(s, df). (s, symbol_col df, ownership_change_col df)) after =
        [(''ABC'', Some [''ABC'', ''ABC''], Some [Fin 5, Fin 15])]"
    by (simp add: case_prod_unfold comp_def p4_trades_def raw_trades_def insider_def
        spec_ownership_change_def np_div_def numeral_2_eq_2)
  have second: "\<exists>after res eff. aggregate_candidates p4_prices p4_trades = Inr (after, res, eff) \<and>
      map (\<lambda>(s, df). (s, symbol_col df, ownership_change_col df)) after =
        [(''ABC'', Some [''ABC'', ''ABC''], Some [Fin 5, Fin 15])]"
    by (rule exI [of _ after], rule exI [of _ res], rule exI [of _ eff], intro conjI run cols)
  from first second show ?thesis by blast
qed

section \<open>Properties of the normaliser\<close>

lemma dropna_cells:
  assumes "(name, col') \<in> set (dropna df)"
  shows "\<exists>col. (name, col) \<in> set df \<and> set col' \<subseteq> set col \<and> (\<forall>c \<in> set col'. \<not> isna c)"
proof -
  from assms obtain col where mem: "(name, col) \<in> set df"
    and col': "col' = map (\<lambda>i. col ! i) (filter (\<lambda>i. \<not> row_has_na df i) [0..<length col])"
    by (auto simp: dropna_def)
  have "set col' \<subseteq> set col"
    unfolding col' by auto
  moreover have "\<not> isna c" if "c \<in> set col'" for c
  proof -
    from that col' obtain i where i: "i < length col" and keep: "\<not> row_has_na df i"
      and c: "c = col ! i"
      by auto
    from keep mem i have "\<not> isna (col ! i)"
      by (auto simp: row_has_na_def list_ex_iff)
    with c show ?thesis by simp
  qed
  ultimately show ?thesis using mem by blast
qed

lemma ffill_from_clean: "\<forall>c \<in> set col. \<not> isna c \<Longrightarrow> ffill_from prev col = col"
  by (induction col arbitrary: prev) simp_all

lemma ffill_after_dropna: "ffill (dropna df) = dropna df"
proof -
  have "(\<lambda>(name, col). (name, ffill_from None col)) p = p" if "p \<in> set (dropna df)" for p
  proof -
    obtain name col where p: "p = (name, col)" by (cases p)
    with that dropna_cells [of name col df] have "\<forall>c \<in> set col. \<not> isna c" by blast
    with p show ?thesis by (simp add: ffill_from_clean)
  qed
  then show ?thesis
    unfolding ffill_def by (simp add: map_idI)
qed

text \<open>
  C7. For every raw frame and every reader of dates the normaliser gives the same result,
  frame or error, as the normaliser without its forward-fill step: after the rows with a
  missing value are dropped there is nothing left to fill.
\<close>

theorem ffill_is_no_op:
  "standardize_ohlcv_dataframe parse df = standardize_without_ffill parse df"
  by (simp add: standardize_ohlcv_dataframe_def standardize_without_ffill_def ffill_after_dropna
      split: sum.splits)

lemma ascii_lower_close: "str_lower ''Close'' = ''close''"
  by code_simp

theorem ffill_is_no_op_witness:
  "standardize_ohlcv_dataframe two_dates gapped_frame = Inr [(''close'', [Num (Fin 100), Num (Fin 80)])]"
proof -
  have idx: "[0..<4] = [0, 1, 2, 3]" by (simp add: upt_rec)
  have "standardize_without_ffill two_dates gapped_frame =
      Inr [(''close'', [Num (Fin 100), Num (Fin 80)])]"
    by (simp add: standardize_without_ffill_def gapped_frame_def rename_columns_def
        ascii_lower_close rename_by_def rename_mapping_def convert_date_def replace_inf_def
        replace_inf_cell_def dropna_def row_has_na_def isna_def idx coerce_numeric_def
        is_numeric_dtype_def to_numeric_def)
  with ffill_is_no_op [of two_dates gapped_frame] show ?thesis by simp
qed




















end
